theory Spec2Isabelle
  imports Complex_Main "HOL-Library.Log_Nat"
begin

section \<open>The fixed-dimension vector class of \<^verbatim>\<open>vector.hpp\<close>\<close>

text \<open>
  \<^verbatim>\<open>template<int N> class Vector\<close> stores its coordinates in the protected array
  \<^verbatim>\<open>double u[N]\<close>. The class is a record with that one field; the template parameter
  \<^verbatim>\<open>N\<close> is an explicit \<open>int\<close> argument of every operation, and a value
  of type \<^verbatim>\<open>Vector<N>\<close> is a record whose array has \<open>nat N\<close> cells.
  A \<^verbatim>\<open>double\<close> is a \<open>real\<close>. In the operations of the first sections the
  arithmetic is exact. The section on double arithmetic gives subtraction, addition, inner
  product, cross product and determinant once more, with every result rounded to the
  nearest double as the machine does; the algebraic identities between these operations
  depend on that rounding.

  The two ways in which the code can go wrong are values of \<open>error\<close>: a failed
  \<^verbatim>\<open>assert\<close> of the bracket operator (assertions are taken to be enabled), and an
  access to the raw array outside its extent, which C++ leaves undefined.
\<close>

datatype error = AssertionFailure | OutOfBounds

record Vector =
  u :: "real list"

definition is_Vector :: "int \<Rightarrow> Vector \<Rightarrow> bool" where
  "is_Vector N v = (0 \<le> N \<and> length (u v) = nat N)"

text \<open>Sequencing of computations that may fail: the first error ends the run.\<close>

definition bindE :: "error + 'a \<Rightarrow> ('a \<Rightarrow> error + 'b) \<Rightarrow> error + 'b" where
  "bindE m f = (case m of Inl e \<Rightarrow> Inl e | Inr x \<Rightarrow> f x)"

text \<open>
  \<^verbatim>\<open>Vector() {}\<close> leaves the coordinates as they are found in the storage of the new
  object. That indeterminate content is the parameter \<open>junk\<close>, one value for each cell.
\<close>

definition Vector_default :: "int \<Rightarrow> (nat \<Rightarrow> real) \<Rightarrow> Vector" where
  "Vector_default N junk = \<lparr>u = map junk [0..<nat N]\<rparr>"

text \<open>
  Plain indexing of the array \<^verbatim>\<open>u\<close> inside member functions, without any check in
  the source. An index outside the array is undefined behaviour and is reported as
  \<open>OutOfBounds\<close>.
\<close>

definition raw_read :: "Vector \<Rightarrow> int \<Rightarrow> error + real" where
  "raw_read this i =
     (if 0 \<le> i \<and> i < int (length (u this)) then Inr (u this ! nat i) else Inl OutOfBounds)"

definition raw_write :: "Vector \<Rightarrow> int \<Rightarrow> real \<Rightarrow> error + Vector" where
  "raw_write this i c =
     (if 0 \<le> i \<and> i < int (length (u this))
      then Inr (this\<lparr>u := (u this)[nat i := c]\<rparr>) else Inl OutOfBounds)"

text \<open>
  The bracket operators return a reference to a coordinate: the slot of the array it
  refers to. \<open>deref\<close> reads through a reference and \<open>assign\<close> writes through it.
\<close>

type_synonym coord_ref = nat

definition bracket :: "int \<Rightarrow> Vector \<Rightarrow> int \<Rightarrow> error + coord_ref" where
  "bracket N this i = (if i \<ge> 0 \<and> i < N then Inr (nat i) else Inl AssertionFailure)"

definition bracket_const :: "int \<Rightarrow> Vector \<Rightarrow> int \<Rightarrow> error + coord_ref" where
  "bracket_const N this i = (if i \<ge> 0 \<and> i < N then Inr (nat i) else Inl AssertionFailure)"

definition deref :: "Vector \<Rightarrow> coord_ref \<Rightarrow> real" where
  "deref v r = u v ! r"

definition assign :: "Vector \<Rightarrow> coord_ref \<Rightarrow> real \<Rightarrow> Vector" where
  "assign v r x = v\<lparr>u := (u v)[r := x]\<rparr>"

text \<open>Reading \<^verbatim>\<open>v[i]\<close> of a constant vector: the const bracket, then the value.\<close>

definition get :: "int \<Rightarrow> Vector \<Rightarrow> int \<Rightarrow> error + real" where
  "get N v i = bindE (bracket_const N v i) (\<lambda>r. Inr (deref v r))"

text \<open>The statement \<^verbatim>\<open>v[i] = x\<close> on a local vector: the mutable bracket, then the store.\<close>

definition put :: "int \<Rightarrow> Vector \<Rightarrow> int \<Rightarrow> real \<Rightarrow> error + Vector" where
  "put N v i x = bindE (bracket N v i) (\<lambda>r. Inr (assign v r x))"

text \<open>The constructor from an initializer list: the range-for loop with its counter.\<close>

fun init_loop :: "real list \<Rightarrow> int \<Rightarrow> Vector \<Rightarrow> error + Vector" where
  "init_loop [] i this = Inr this"
| "init_loop (c # coords) i this =
     (case raw_write this i c of
        Inl e \<Rightarrow> Inl e
      | Inr this' \<Rightarrow> init_loop coords (i + 1) this')"

definition Vector_init :: "int \<Rightarrow> (nat \<Rightarrow> real) \<Rightarrow> real list \<Rightarrow> error + Vector" where
  "Vector_init N junk coords = init_loop coords 0 (Vector_default N junk)"

definition dimension :: "int \<Rightarrow> Vector \<Rightarrow> int" where
  "dimension N this = N"

subsection \<open>Addition, subtraction, scalar multiplication\<close>

function plus_loop :: "int \<Rightarrow> Vector \<Rightarrow> Vector \<Rightarrow> int \<Rightarrow> Vector \<Rightarrow> error + Vector" where
  "plus_loop N this v i sum_v =
     (if i < N then
        (case raw_read this i of
           Inl e \<Rightarrow> Inl e
         | Inr ui \<Rightarrow>
            (case get N v i of
               Inl e \<Rightarrow> Inl e
             | Inr vi \<Rightarrow>
                (case put N sum_v i (ui + vi) of
                   Inl e \<Rightarrow> Inl e
                 | Inr sum_v' \<Rightarrow> plus_loop N this v (i + 1) sum_v')))
      else Inr sum_v)"
  by pat_completeness auto
termination
  by (relation "measure (\<lambda>(N, this, v, i, sum_v). nat (N - i))") auto

definition op_plus :: "int \<Rightarrow> (nat \<Rightarrow> real) \<Rightarrow> Vector \<Rightarrow> Vector \<Rightarrow> error + Vector" where
  "op_plus N junk this v = plus_loop N this v 0 (Vector_default N junk)"

function minus_loop :: "int \<Rightarrow> Vector \<Rightarrow> Vector \<Rightarrow> int \<Rightarrow> Vector \<Rightarrow> error + Vector" where
  "minus_loop N this v i diff =
     (if i < N then
        (case raw_read this i of
           Inl e \<Rightarrow> Inl e
         | Inr ui \<Rightarrow>
            (case get N v i of
               Inl e \<Rightarrow> Inl e
             | Inr vi \<Rightarrow>
                (case put N diff i (ui - vi) of
                   Inl e \<Rightarrow> Inl e
                 | Inr diff' \<Rightarrow> minus_loop N this v (i + 1) diff')))
      else Inr diff)"
  by pat_completeness auto
termination
  by (relation "measure (\<lambda>(N, this, v, i, diff). nat (N - i))") auto

definition op_minus :: "int \<Rightarrow> (nat \<Rightarrow> real) \<Rightarrow> Vector \<Rightarrow> Vector \<Rightarrow> error + Vector" where
  "op_minus N junk this v = minus_loop N this v 0 (Vector_default N junk)"

text \<open>The member \<^verbatim>\<open>operator*( double a )\<close>, written \<^verbatim>\<open>u*a\<close>.\<close>

function times_loop :: "int \<Rightarrow> Vector \<Rightarrow> real \<Rightarrow> int \<Rightarrow> Vector \<Rightarrow> error + Vector" where
  "times_loop N this a i product =
     (if i < N then
        (case raw_read this i of
           Inl e \<Rightarrow> Inl e
         | Inr ui \<Rightarrow>
            (case put N product i (a * ui) of
               Inl e \<Rightarrow> Inl e
             | Inr product' \<Rightarrow> times_loop N this a (i + 1) product'))
      else Inr product)"
  by pat_completeness auto
termination
  by (relation "measure (\<lambda>(N, this, a, i, product). nat (N - i))") auto

definition op_times :: "int \<Rightarrow> (nat \<Rightarrow> real) \<Rightarrow> Vector \<Rightarrow> real \<Rightarrow> error + Vector" where
  "op_times N junk this a = times_loop N this a 0 (Vector_default N junk)"

text \<open>The free function \<^verbatim>\<open>operator*( double a, const Vector<N>& u )\<close>, written \<^verbatim>\<open>a*u\<close>.\<close>

function scalar_times_loop :: "int \<Rightarrow> real \<Rightarrow> Vector \<Rightarrow> int \<Rightarrow> Vector \<Rightarrow> error + Vector" where
  "scalar_times_loop N a v i product =
     (if i < N then
        (case get N v i of
           Inl e \<Rightarrow> Inl e
         | Inr vi \<Rightarrow>
            (case put N product i (a * vi) of
               Inl e \<Rightarrow> Inl e
             | Inr product' \<Rightarrow> scalar_times_loop N a v (i + 1) product'))
      else Inr product)"
  by pat_completeness auto
termination
  by (relation "measure (\<lambda>(N, a, v, i, product). nat (N - i))") auto

definition scalar_times :: "int \<Rightarrow> (nat \<Rightarrow> real) \<Rightarrow> real \<Rightarrow> Vector \<Rightarrow> error + Vector" where
  "scalar_times N junk a v = scalar_times_loop N a v 0 (Vector_default N junk)"

subsection \<open>Norm, inner product, cross product, determinant\<close>

text \<open>
  The free functions take their vectors by constant reference, so every \<^verbatim>\<open>u[i]\<close> in
  them goes through the const bracket operator. The parameter \<^verbatim>\<open>u\<close> of the source is
  \<open>u'\<close> here, the local \<^verbatim>\<open>sum\<close> is \<open>sum_d\<close>, and \<^verbatim>\<open>norm\<close> is \<open>norm_Vector\<close>.
\<close>

function norm_loop :: "int \<Rightarrow> Vector \<Rightarrow> int \<Rightarrow> real \<Rightarrow> error + real" where
  "norm_loop N u' i sum_d =
     (if i < N then
        (case get N u' i of
           Inl e \<Rightarrow> Inl e
         | Inr a \<Rightarrow>
            (case get N u' i of
               Inl e \<Rightarrow> Inl e
             | Inr b \<Rightarrow> norm_loop N u' (i + 1) (sum_d + a * b)))
      else Inr sum_d)"
  by pat_completeness auto
termination
  by (relation "measure (\<lambda>(N, u', i, sum_d). nat (N - i))") auto

definition norm_Vector :: "int \<Rightarrow> Vector \<Rightarrow> error + real" where
  "norm_Vector N u' = bindE (norm_loop N u' 0 0) (\<lambda>sum_d. let m = sqrt sum_d in Inr m)"

function inner_loop :: "int \<Rightarrow> Vector \<Rightarrow> Vector \<Rightarrow> int \<Rightarrow> real \<Rightarrow> error + real" where
  "inner_loop N u' v i sum_d =
     (if i < N then
        (case get N u' i of
           Inl e \<Rightarrow> Inl e
         | Inr a \<Rightarrow>
            (case get N v i of
               Inl e \<Rightarrow> Inl e
             | Inr b \<Rightarrow> inner_loop N u' v (i + 1) (sum_d + a * b)))
      else Inr sum_d)"
  by pat_completeness auto
termination
  by (relation "measure (\<lambda>(N, u', v, i, sum_d). nat (N - i))") auto

definition inner :: "int \<Rightarrow> Vector \<Rightarrow> Vector \<Rightarrow> error + real" where
  "inner N u' v = inner_loop N u' v 0 0"

definition cross :: "(nat \<Rightarrow> real) \<Rightarrow> Vector \<Rightarrow> Vector \<Rightarrow> error + Vector" where
  "cross junk u' v =
     (let product = Vector_default 3 junk in
      bindE (get 3 u' 1) (\<lambda>u1. bindE (get 3 v 2) (\<lambda>v2.
      bindE (get 3 u' 2) (\<lambda>u2. bindE (get 3 v 1) (\<lambda>v1.
      bindE (put 3 product 0 (u1 * v2 - u2 * v1)) (\<lambda>product.
      bindE (get 3 u' 2) (\<lambda>u2. bindE (get 3 v 0) (\<lambda>v0.
      bindE (get 3 u' 0) (\<lambda>u0. bindE (get 3 v 2) (\<lambda>v2.
      bindE (put 3 product 1 (u2 * v0 - u0 * v2)) (\<lambda>product.
      bindE (get 3 u' 0) (\<lambda>u0. bindE (get 3 v 1) (\<lambda>v1.
      bindE (get 3 u' 1) (\<lambda>u1. bindE (get 3 v 0) (\<lambda>v0.
      bindE (put 3 product 2 (u0 * v1 - u1 * v0)) (\<lambda>product.
      Inr product))))))))))))))))"

definition det :: "Vector \<Rightarrow> Vector \<Rightarrow> Vector \<Rightarrow> error + real" where
  "det u' v w =
     bindE (get 3 u' 0) (\<lambda>u0.
     bindE (get 3 v 1) (\<lambda>v1. bindE (get 3 w 2) (\<lambda>w2.
     bindE (get 3 v 2) (\<lambda>v2. bindE (get 3 w 1) (\<lambda>w1.
     bindE (get 3 u' 1) (\<lambda>u1.
     bindE (get 3 v 2) (\<lambda>v2'. bindE (get 3 w 0) (\<lambda>w0.
     bindE (get 3 v 0) (\<lambda>v0. bindE (get 3 w 2) (\<lambda>w2'.
     bindE (get 3 u' 2) (\<lambda>u2.
     bindE (get 3 v 0) (\<lambda>v0'. bindE (get 3 w 1) (\<lambda>w1'.
     bindE (get 3 v 1) (\<lambda>v1'. bindE (get 3 w 0) (\<lambda>w0'.
     let m = u0 * (v1 * w2 - v2 * w1) +
             u1 * (v2' * w0 - v0 * w2') +
             u2 * (v0' * w1' - v1' * w0')
     in Inr m)))))))))))))))"

subsection \<open>Printing and the reference check\<close>

text \<open>
  Standard output is the list of the items inserted into \<^verbatim>\<open>cout\<close>, in order: string
  literals, doubles, ints and \<^verbatim>\<open>endl\<close>. How a double is formatted is not modelled.
\<close>

datatype token = Str string | Dbl real | IntT int | Endl

function print_loop :: "int \<Rightarrow> token list \<Rightarrow> Vector \<Rightarrow> int \<Rightarrow> error + token list" where
  "print_loop N os u' i =
     (if i < N then
        (case get N u' i of
           Inl e \<Rightarrow> Inl e
         | Inr x \<Rightarrow> print_loop N (os @ [Dbl x, Str '' '']) u' (i + 1))
      else Inr os)"
  by pat_completeness auto
termination
  by (relation "measure (\<lambda>(N, os, u', i). nat (N - i))") auto

definition print_Vector :: "int \<Rightarrow> token list \<Rightarrow> Vector \<Rightarrow> error + token list" where
  "print_Vector N os u' =
     bindE (print_loop N (os @ [Str ''[ '']) u' 0) (\<lambda>os. Inr (os @ [Str '']'']))"

definition diff_double :: "real \<Rightarrow> real \<Rightarrow> real" where
  "diff_double x y = \<bar>x - y\<bar>"

text \<open>
  \<^verbatim>\<open>diff( Vector<N> u, Vector<N> v )\<close> takes copies, which are not constant: their
  coordinates are read through the mutable bracket operator.
\<close>

definition get_mut :: "int \<Rightarrow> Vector \<Rightarrow> int \<Rightarrow> error + real" where
  "get_mut N v i = bindE (bracket N v i) (\<lambda>r. Inr (deref v r))"

function diff_loop :: "int \<Rightarrow> Vector \<Rightarrow> Vector \<Rightarrow> int \<Rightarrow> real \<Rightarrow> error + real" where
  "diff_loop N u' v i sum_d =
     (if i < N then
        (case get_mut N u' i of
           Inl e \<Rightarrow> Inl e
         | Inr a \<Rightarrow>
            (case get_mut N v i of
               Inl e \<Rightarrow> Inl e
             | Inr b \<Rightarrow> diff_loop N u' v (i + 1) (sum_d + diff_double a b)))
      else Inr sum_d)"
  by pat_completeness auto
termination
  by (relation "measure (\<lambda>(N, u', v, i, sum_d). nat (N - i))") auto

definition diff_Vector :: "int \<Rightarrow> Vector \<Rightarrow> Vector \<Rightarrow> error + real" where
  "diff_Vector N u' v = diff_loop N u' v 0 0"

definition tolerance :: real where
  "tolerance = 1 / 100000"

text \<open>\<^verbatim>\<open>check<double>\<close>: the output so far goes in, the output and the verdict come out.\<close>

definition check_double :: "token list \<Rightarrow> real \<Rightarrow> real \<Rightarrow> token list \<times> int" where
  "check_double os val ref =
     (let os = os @ [Str ''YOUR CODE: '', Dbl val, Endl];
          os = os @ [Str ''REFERENCE: '', Dbl ref, Endl];
          os = os @ [Str ''  CORRECT? '']
      in if diff_double val ref < tolerance
         then (os @ [Str ''YES'', Endl, Endl], 1)
         else (os @ [Str ''NO'', Endl, Endl], 0))"

text \<open>\<^verbatim>\<open>check< Vector<N> >\<close>.\<close>

definition check_Vector ::
  "int \<Rightarrow> token list \<Rightarrow> Vector \<Rightarrow> Vector \<Rightarrow> error + token list \<times> int" where
  "check_Vector N os val ref =
     bindE (print_Vector N (os @ [Str ''YOUR CODE: '']) val) (\<lambda>os.
     bindE (print_Vector N (os @ [Endl, Str ''REFERENCE: '']) ref) (\<lambda>os.
     let os = os @ [Endl, Str ''  CORRECT? ''] in
     bindE (diff_Vector N val ref) (\<lambda>d.
     if d < tolerance
     then Inr (os @ [Str ''YES'', Endl, Endl], 1)
     else Inr (os @ [Str ''NO'', Endl, Endl], 0))))"

subsection \<open>The quiz program\<close>

text \<open>
  \<open>junk k\<close> is the indeterminate initial content of the \<open>k\<close>-th vector object that
  \<^verbatim>\<open>test\<close> creates, directly or inside an operator.
\<close>

definition test :: "(nat \<Rightarrow> nat \<Rightarrow> real) \<Rightarrow> token list \<Rightarrow> error + token list" where
  "test junk os =
     bindE (Vector_init 3 (junk 0) [1, 2, 3]) (\<lambda>u'.
     bindE (Vector_init 3 (junk 1) [3, 1, 2]) (\<lambda>v.
     bindE (Vector_init 3 (junk 2) [5, 3, 7]) (\<lambda>w.
     let a = 4 in
     bindE (print_Vector 3 (os @ [Str ''u: '']) u') (\<lambda>os.
     bindE (print_Vector 3 (os @ [Endl, Str ''v: '']) v) (\<lambda>os.
     bindE (print_Vector 3 (os @ [Endl, Str ''w: '']) w) (\<lambda>os.
     let os = os @ [Endl, Str ''a: '', Dbl a, Endl, Endl];
         nPassed = 0;
         os = os @ [Str ''u+v (addition)'', Endl] in
     bindE (op_plus 3 (junk 3) u' v) (\<lambda>val.
     bindE (Vector_init 3 (junk 4) [4, 3, 5]) (\<lambda>ref.
     bindE (check_Vector 3 os val ref) (\<lambda>(os, r).
     let nPassed = nPassed + r;
         os = os @ [Str ''u-v (subtraction)'', Endl] in
     bindE (op_minus 3 (junk 5) u' v) (\<lambda>val.
     bindE (Vector_init 3 (junk 6) [- 2, 1, 1]) (\<lambda>ref.
     bindE (check_Vector 3 os val ref) (\<lambda>(os, r).
     let nPassed = nPassed + r;
         os = os @ [Str ''u*a (right scalar multiplication)'', Endl] in
     bindE (op_times 3 (junk 7) u' a) (\<lambda>val.
     bindE (Vector_init 3 (junk 8) [4, 8, 12]) (\<lambda>ref.
     bindE (check_Vector 3 os val ref) (\<lambda>(os, r).
     let nPassed = nPassed + r;
         os = os @ [Str ''norm(u) (Euclidean norm)'', Endl] in
     bindE (norm_Vector 3 u') (\<lambda>val.
     case check_double os val (374166 / 100000) of (os, r) \<Rightarrow>
     let nPassed = nPassed + r;
         os = os @ [Str ''inner(u,v) (inner product)'', Endl] in
     bindE (inner 3 u' v) (\<lambda>val.
     case check_double os val 11 of (os, r) \<Rightarrow>
     let nPassed = nPassed + r;
         os = os @ [Str ''cross(u,v) (cross product)'', Endl] in
     bindE (cross (junk 9) u' v) (\<lambda>val.
     bindE (Vector_init 3 (junk 10) [1, 7, - 5]) (\<lambda>ref.
     bindE (check_Vector 3 os val ref) (\<lambda>(os, r).
     let nPassed = nPassed + r;
         os = os @ [Str ''det(u,v,w) (determinant)'', Endl] in
     bindE (det u' v w) (\<lambda>val.
     case check_double os val (- 9) of (os, r) \<Rightarrow>
     let nPassed = nPassed + r;
         os = os @ [Str ''a*u (left scalar multiplication)'', Endl] in
     bindE (scalar_times 3 (junk 11) a u') (\<lambda>val.
     bindE (Vector_init 3 (junk 12) [4, 8, 12]) (\<lambda>ref.
     bindE (check_Vector 3 os val ref) (\<lambda>(os, r).
     let nPassed = nPassed + r in
     Inr (os @ [Str ''PASSED '', IntT nPassed, Str '' OF 8 TESTS'', Endl])
     ))))))))))))))))))))))))"

text \<open>\<^verbatim>\<open>main\<close>: the output of the run and the exit code.\<close>

definition main :: "(nat \<Rightarrow> nat \<Rightarrow> real) \<Rightarrow> error + token list \<times> int" where
  "main junk = bindE (test junk []) (\<lambda>os. Inr (os, 0))"

section \<open>Double arithmetic\<close>

text \<open>
  The coordinates are IEEE 754 binary64 numbers, and every \<^verbatim>\<open>+\<close>, \<^verbatim>\<open>-\<close> and \<^verbatim>\<open>*\<close> of
  the source returns the exact result rounded to the nearest double, ties to the even
  significand. A finite double is a real number; \<open>round_double x\<close> is the double nearest
  to \<open>x\<close>. For \<open>2 ^ e \<le> \<bar>x\<bar> < 2 ^ (e + 1)\<close> the doubles are the multiples of
  \<open>2 ^ (e - 52)\<close>, and below \<open>2 ^ - 1022\<close> they are the multiples of \<open>2 ^ - 1074\<close>.

  Overflow is outside the model: a result of magnitude \<open>2 ^ 1024\<close> or more is infinite
  on the machine. \<open>is_double x\<close> says that \<open>x\<close> is a finite double. Each operation is
  rounded on its own, to binary64 (no fused multiply-add, no wider intermediate format).
\<close>

definition round_half_even :: "real \<Rightarrow> int" where
  "round_half_even y =
     (let n = \<lfloor>y\<rfloor>; f = y - of_int n
      in if f < 1 / 2 then n else if 1 / 2 < f then n + 1 else if even n then n else n + 1)"

definition pow2 :: "int \<Rightarrow> real" where
  "pow2 t = (if 0 \<le> t then 2 ^ nat t else 1 / 2 ^ nat (- t))"

definition ulp_exponent :: "real \<Rightarrow> int" where
  "ulp_exponent x = max (\<lfloor>log 2 \<bar>x\<bar>\<rfloor> - 52) (- 1074)"

definition round_double :: "real \<Rightarrow> real" where
  "round_double x =
     (if x = 0 then 0
      else sgn x * (of_int (round_half_even (\<bar>x\<bar> / pow2 (ulp_exponent x))) * pow2 (ulp_exponent x)))"

definition is_double :: "real \<Rightarrow> bool" where
  "is_double x = (round_double x = x \<and> \<bar>x\<bar> < 2 ^ 1024)"

text \<open>
  An integer rounded to 53 significant bits, ties to even. On integers \<open>round_double\<close>
  is this function (lemma \<open>round_double_of_int\<close>), which computes on numerals.
\<close>

definition round53 :: "int \<Rightarrow> int" where
  "round53 k =
     (let n = bitlen \<bar>k\<bar> in
      if n \<le> 53 then k
      else let t = nat (n - 53); q = \<bar>k\<bar> div 2 ^ t; r = \<bar>k\<bar> mod 2 ^ t; h = 2 ^ (t - 1)
           in sgn k * (2 ^ t * (if r < h then q else if h < r then q + 1
                                else if even q then q else q + 1)))"





text \<open>
  \<^verbatim>\<open>inner\<close>: the statement \<^verbatim>\<open>sum += u[i] * v[i]\<close> rounds the product and then the sum.
\<close>

function inner_loop_double :: "int \<Rightarrow> Vector \<Rightarrow> Vector \<Rightarrow> int \<Rightarrow> real \<Rightarrow> error + real" where
  "inner_loop_double N u' v i sum_d =
     (if i < N then
        (case get N u' i of
           Inl e \<Rightarrow> Inl e
         | Inr a \<Rightarrow>
            (case get N v i of
               Inl e \<Rightarrow> Inl e
             | Inr b \<Rightarrow>
                inner_loop_double N u' v (i + 1) (round_double (sum_d + round_double (a * b)))))
      else Inr sum_d)"
  by pat_completeness auto
termination
  by (relation "measure (\<lambda>(N, u', v, i, sum_d). nat (N - i))") auto

definition inner_double :: "int \<Rightarrow> Vector \<Rightarrow> Vector \<Rightarrow> error + real" where
  "inner_double N u' v = inner_loop_double N u' v 0 0"

text \<open>
  \<^verbatim>\<open>cross\<close> and \<^verbatim>\<open>det\<close>: every product, difference and sum of the source expression is
  rounded, in the order in which the expression is evaluated.
\<close>

definition cross_double :: "(nat \<Rightarrow> real) \<Rightarrow> Vector \<Rightarrow> Vector \<Rightarrow> error + Vector" where
  "cross_double junk u' v =
     (let product = Vector_default 3 junk in
      bindE (get 3 u' 1) (\<lambda>u1. bindE (get 3 v 2) (\<lambda>v2.
      bindE (get 3 u' 2) (\<lambda>u2. bindE (get 3 v 1) (\<lambda>v1.
      bindE (put 3 product 0
               (round_double (round_double (u1 * v2) - round_double (u2 * v1)))) (\<lambda>product.
      bindE (get 3 u' 2) (\<lambda>u2. bindE (get 3 v 0) (\<lambda>v0.
      bindE (get 3 u' 0) (\<lambda>u0. bindE (get 3 v 2) (\<lambda>v2.
      bindE (put 3 product 1
               (round_double (round_double (u2 * v0) - round_double (u0 * v2)))) (\<lambda>product.
      bindE (get 3 u' 0) (\<lambda>u0. bindE (get 3 v 1) (\<lambda>v1.
      bindE (get 3 u' 1) (\<lambda>u1. bindE (get 3 v 0) (\<lambda>v0.
      bindE (put 3 product 2
               (round_double (round_double (u0 * v1) - round_double (u1 * v0)))) (\<lambda>product.
      Inr product))))))))))))))))"

definition det_double :: "Vector \<Rightarrow> Vector \<Rightarrow> Vector \<Rightarrow> error + real" where
  "det_double u' v w =
     bindE (get 3 u' 0) (\<lambda>u0.
     bindE (get 3 v 1) (\<lambda>v1. bindE (get 3 w 2) (\<lambda>w2.
     bindE (get 3 v 2) (\<lambda>v2. bindE (get 3 w 1) (\<lambda>w1.
     bindE (get 3 u' 1) (\<lambda>u1.
     bindE (get 3 v 2) (\<lambda>v2'. bindE (get 3 w 0) (\<lambda>w0.
     bindE (get 3 v 0) (\<lambda>v0. bindE (get 3 w 2) (\<lambda>w2'.
     bindE (get 3 u' 2) (\<lambda>u2.
     bindE (get 3 v 0) (\<lambda>v0'. bindE (get 3 w 1) (\<lambda>w1'.
     bindE (get 3 v 1) (\<lambda>v1'. bindE (get 3 w 0) (\<lambda>w0'.
     let t0 = round_double (u0 * round_double (round_double (v1 * w2) - round_double (v2 * w1)));
         t1 = round_double (u1 * round_double (round_double (v2' * w0) - round_double (v0 * w2')));
         t2 = round_double (u2 * round_double (round_double (v0' * w1') - round_double (v1' * w0')));
         m = round_double (round_double (t0 + t1) + t2)
     in Inr m)))))))))))))))"

text \<open>
  Vectors whose coordinates are integers of magnitude at most \<open>2 ^ 16\<close>. On them no
  operation of \<^verbatim>\<open>cross\<close>, \<^verbatim>\<open>inner\<close> and \<^verbatim>\<open>det\<close> rounds: every intermediate value is an
  integer below \<open>2 ^ 53\<close>.
\<close>

definition int_coords :: "Vector \<Rightarrow> bool" where
  "int_coords v = list_all (\<lambda>c. c \<in> \<int> \<and> \<bar>c\<bar> \<le> 65536) (u v)"

section \<open>What the loops compute\<close>

text \<open>
  Inside the range of the array no bracket assertion fails and no raw access leaves the
  array, so each loop runs to its end; its result is given in closed form, for every
  position \<open>i\<close> of the counter.
\<close>

lemma raw_read_in_range:
  "0 \<le> i \<Longrightarrow> i < int (length (u v)) \<Longrightarrow> raw_read v i = Inr (u v ! nat i)"
  by (simp add: raw_read_def)

lemma get_in_range: "0 \<le> i \<Longrightarrow> i < N \<Longrightarrow> get N v i = Inr (u v ! nat i)"
  by (simp add: get_def bindE_def bracket_const_def deref_def)

lemma get_mut_in_range: "0 \<le> i \<Longrightarrow> i < N \<Longrightarrow> get_mut N v i = Inr (u v ! nat i)"
  by (simp add: get_mut_def bindE_def bracket_def deref_def)

lemma put_in_range:
  "0 \<le> i \<Longrightarrow> i < N \<Longrightarrow> put N v i x = Inr (v\<lparr>u := (u v)[nat i := x]\<rparr>)"
  by (simp add: put_def bindE_def bracket_def assign_def)

lemma take_Suc_update:
  "k < length xs \<Longrightarrow> take (Suc k) (xs[k := x]) = take k xs @ [x]"
  by (simp add: take_Suc_conv_app_nth)

lemma nat_succ: "0 \<le> i \<Longrightarrow> nat (i + 1) = Suc (nat i)"
  by simp

lemma bindE_Inr [simp]: "bindE (Inr x) f = f x"
  by (simp add: bindE_def)

lemma bindE_Inl [simp]: "bindE (Inl e) f = Inl e"
  by (simp add: bindE_def)

lemma plus_loop_spec:
  "0 \<le> i \<Longrightarrow> i \<le> N \<Longrightarrow> length (u this) = nat N \<Longrightarrow> length (u v) = nat N \<Longrightarrow>
   length (u s) = nat N \<Longrightarrow>
   plus_loop N this v i s =
     Inr \<lparr>u = take (nat i) (u s) @
              map2 (+) (drop (nat i) (u this)) (drop (nat i) (u v))\<rparr>"
proof (induction N this v i s rule: plus_loop.induct)
  case (1 N this v i s)
  show ?case
  proof (cases "i < N")
    case False
    with 1 have "nat i = nat N" by simp
    with 1 False show ?thesis by (subst plus_loop.simps) simp
  next
    case True
    let ?x = "u this ! nat i + u v ! nat i"
    let ?s = "s\<lparr>u := (u s)[nat i := ?x]\<rparr>"
    have k: "nat i < nat N" using True 1 by simp
    have step: "plus_loop N this v i s = plus_loop N this v (i + 1) ?s"
      using True 1 by (subst plus_loop.simps) (simp add: raw_read_in_range get_in_range put_in_range)
    have "plus_loop N this v (i + 1) ?s =
      Inr \<lparr>u = take (nat (i + 1)) (u ?s) @
              map2 (+) (drop (nat (i + 1)) (u this)) (drop (nat (i + 1)) (u v))\<rparr>"
      using True 1 by (intro "1.IH") (simp_all add: raw_read_in_range get_in_range put_in_range)
    also have "take (nat (i + 1)) (u ?s) = take (nat i) (u s) @ [?x]"
      using k 1 by (simp add: nat_succ take_Suc_update)
    finally show ?thesis
      using step k 1 by (simp add: nat_succ Cons_nth_drop_Suc [symmetric])
  qed
qed

lemma minus_loop_spec:
  "0 \<le> i \<Longrightarrow> i \<le> N \<Longrightarrow> length (u this) = nat N \<Longrightarrow> length (u v) = nat N \<Longrightarrow>
   length (u d) = nat N \<Longrightarrow>
   minus_loop N this v i d =
     Inr \<lparr>u = take (nat i) (u d) @
              map2 (-) (drop (nat i) (u this)) (drop (nat i) (u v))\<rparr>"
proof (induction N this v i d rule: minus_loop.induct)
  case (1 N this v i d)
  show ?case
  proof (cases "i < N")
    case False
    with 1 have "nat i = nat N" by simp
    with 1 False show ?thesis by (subst minus_loop.simps) simp
  next
    case True
    let ?x = "u this ! nat i - u v ! nat i"
    let ?d = "d\<lparr>u := (u d)[nat i := ?x]\<rparr>"
    have k: "nat i < nat N" using True 1 by simp
    have step: "minus_loop N this v i d = minus_loop N this v (i + 1) ?d"
      using True 1 by (subst minus_loop.simps) (simp add: raw_read_in_range get_in_range put_in_range)
    have "minus_loop N this v (i + 1) ?d =
      Inr \<lparr>u = take (nat (i + 1)) (u ?d) @
              map2 (-) (drop (nat (i + 1)) (u this)) (drop (nat (i + 1)) (u v))\<rparr>"
      using True 1 by (intro "1.IH") (simp_all add: raw_read_in_range get_in_range put_in_range)
    also have "take (nat (i + 1)) (u ?d) = take (nat i) (u d) @ [?x]"
      using k 1 by (simp add: nat_succ take_Suc_update)
    finally show ?thesis
      using step k 1 by (simp add: nat_succ Cons_nth_drop_Suc [symmetric])
  qed
qed

lemma times_loop_spec:
  "0 \<le> i \<Longrightarrow> i \<le> N \<Longrightarrow> length (u this) = nat N \<Longrightarrow> length (u p) = nat N \<Longrightarrow>
   times_loop N this a i p =
     Inr \<lparr>u = take (nat i) (u p) @ map ((*) a) (drop (nat i) (u this))\<rparr>"
proof (induction N this a i p rule: times_loop.induct)
  case (1 N this a i p)
  show ?case
  proof (cases "i < N")
    case False
    with 1 have "nat i = nat N" by simp
    with 1 False show ?thesis by (subst times_loop.simps) simp
  next
    case True
    let ?x = "a * u this ! nat i"
    let ?p = "p\<lparr>u := (u p)[nat i := ?x]\<rparr>"
    have k: "nat i < nat N" using True 1 by simp
    have step: "times_loop N this a i p = times_loop N this a (i + 1) ?p"
      using True 1 by (subst times_loop.simps) (simp add: raw_read_in_range put_in_range)
    have "times_loop N this a (i + 1) ?p =
      Inr \<lparr>u = take (nat (i + 1)) (u ?p) @ map ((*) a) (drop (nat (i + 1)) (u this))\<rparr>"
      using True 1 by (intro "1.IH") (simp_all add: raw_read_in_range put_in_range)
    also have "take (nat (i + 1)) (u ?p) = take (nat i) (u p) @ [?x]"
      using k 1 by (simp add: nat_succ take_Suc_update)
    finally show ?thesis
      using step k 1 by (simp add: nat_succ Cons_nth_drop_Suc [symmetric])
  qed
qed

lemma scalar_times_loop_spec:
  "0 \<le> i \<Longrightarrow> i \<le> N \<Longrightarrow> length (u v) = nat N \<Longrightarrow> length (u p) = nat N \<Longrightarrow>
   scalar_times_loop N a v i p =
     Inr \<lparr>u = take (nat i) (u p) @ map ((*) a) (drop (nat i) (u v))\<rparr>"
proof (induction N a v i p rule: scalar_times_loop.induct)
  case (1 N a v i p)
  show ?case
  proof (cases "i < N")
    case False
    with 1 have "nat i = nat N" by simp
    with 1 False show ?thesis by (subst scalar_times_loop.simps) simp
  next
    case True
    let ?x = "a * u v ! nat i"
    let ?p = "p\<lparr>u := (u p)[nat i := ?x]\<rparr>"
    have k: "nat i < nat N" using True 1 by simp
    have step: "scalar_times_loop N a v i p = scalar_times_loop N a v (i + 1) ?p"
      using True 1 by (subst scalar_times_loop.simps) (simp add: get_in_range put_in_range)
    have "scalar_times_loop N a v (i + 1) ?p =
      Inr \<lparr>u = take (nat (i + 1)) (u ?p) @ map ((*) a) (drop (nat (i + 1)) (u v))\<rparr>"
      using True 1 by (intro "1.IH") (simp_all add: get_in_range put_in_range)
    also have "take (nat (i + 1)) (u ?p) = take (nat i) (u p) @ [?x]"
      using k 1 by (simp add: nat_succ take_Suc_update)
    finally show ?thesis
      using step k 1 by (simp add: nat_succ Cons_nth_drop_Suc [symmetric])
  qed
qed

lemma length_Vector_default [simp]: "length (u (Vector_default N junk)) = nat N"
  by (simp add: Vector_default_def)

lemma op_plus_spec:
  "is_Vector N x \<Longrightarrow> is_Vector N v \<Longrightarrow> op_plus N junk x v = Inr \<lparr>u = map2 (+) (u x) (u v)\<rparr>"
  unfolding op_plus_def is_Vector_def by (subst plus_loop_spec) simp_all

lemma op_minus_spec:
  "is_Vector N x \<Longrightarrow> is_Vector N v \<Longrightarrow> op_minus N junk x v = Inr \<lparr>u = map2 (-) (u x) (u v)\<rparr>"
  unfolding op_minus_def is_Vector_def by (subst minus_loop_spec) simp_all

lemma op_times_spec:
  "is_Vector N x \<Longrightarrow> op_times N junk x a = Inr \<lparr>u = map ((*) a) (u x)\<rparr>"
  unfolding op_times_def is_Vector_def by (subst times_loop_spec) simp_all

lemma scalar_times_spec:
  "is_Vector N x \<Longrightarrow> scalar_times N junk a x = Inr \<lparr>u = map ((*) a) (u x)\<rparr>"
  unfolding scalar_times_def is_Vector_def by (subst scalar_times_loop_spec) simp_all

lemma inner_loop_spec:
  "0 \<le> i \<Longrightarrow> i \<le> N \<Longrightarrow> length (u x) = nat N \<Longrightarrow> length (u v) = nat N \<Longrightarrow>
   inner_loop N x v i s =
     Inr (s + sum_list (map2 (*) (drop (nat i) (u x)) (drop (nat i) (u v))))"
proof (induction N x v i s rule: inner_loop.induct)
  case (1 N x v i s)
  show ?case
  proof (cases "i < N")
    case False
    with 1 have "nat i = nat N" by simp
    with 1 False show ?thesis by (subst inner_loop.simps) simp
  next
    case True
    have k: "nat i < nat N" using True 1 by simp
    have step: "inner_loop N x v i s =
        inner_loop N x v (i + 1) (s + u x ! nat i * u v ! nat i)"
      using True 1 by (subst inner_loop.simps) (simp add: get_in_range)
    have "inner_loop N x v (i + 1) (s + u x ! nat i * u v ! nat i) =
      Inr (s + u x ! nat i * u v ! nat i +
           sum_list (map2 (*) (drop (nat (i + 1)) (u x)) (drop (nat (i + 1)) (u v))))"
      using True 1 by (intro "1.IH") (simp_all add: get_in_range)
    then show ?thesis
      using step k 1 by (simp add: nat_succ Cons_nth_drop_Suc [symmetric])
  qed
qed

lemma norm_loop_spec:
  "0 \<le> i \<Longrightarrow> i \<le> N \<Longrightarrow> length (u x) = nat N \<Longrightarrow>
   norm_loop N x i s =
     Inr (s + sum_list (map2 (*) (drop (nat i) (u x)) (drop (nat i) (u x))))"
proof (induction N x i s rule: norm_loop.induct)
  case (1 N x i s)
  show ?case
  proof (cases "i < N")
    case False
    with 1 have "nat i = nat N" by simp
    with 1 False show ?thesis by (subst norm_loop.simps) simp
  next
    case True
    have k: "nat i < nat N" using True 1 by simp
    have step: "norm_loop N x i s = norm_loop N x (i + 1) (s + u x ! nat i * u x ! nat i)"
      using True 1 by (subst norm_loop.simps) (simp add: get_in_range)
    have "norm_loop N x (i + 1) (s + u x ! nat i * u x ! nat i) =
      Inr (s + u x ! nat i * u x ! nat i +
           sum_list (map2 (*) (drop (nat (i + 1)) (u x)) (drop (nat (i + 1)) (u x))))"
      using True 1 by (intro "1.IH") (simp_all add: get_in_range)
    then show ?thesis
      using step k 1 by (simp add: nat_succ Cons_nth_drop_Suc [symmetric])
  qed
qed

lemma diff_loop_spec:
  "0 \<le> i \<Longrightarrow> i \<le> N \<Longrightarrow> length (u x) = nat N \<Longrightarrow> length (u v) = nat N \<Longrightarrow>
   diff_loop N x v i s =
     Inr (s + sum_list (map2 diff_double (drop (nat i) (u x)) (drop (nat i) (u v))))"
proof (induction N x v i s rule: diff_loop.induct)
  case (1 N x v i s)
  show ?case
  proof (cases "i < N")
    case False
    with 1 have "nat i = nat N" by simp
    with 1 False show ?thesis by (subst diff_loop.simps) simp
  next
    case True
    have k: "nat i < nat N" using True 1 by simp
    have step: "diff_loop N x v i s =
        diff_loop N x v (i + 1) (s + diff_double (u x ! nat i) (u v ! nat i))"
      using True 1 by (subst diff_loop.simps) (simp add: get_mut_in_range)
    have "diff_loop N x v (i + 1) (s + diff_double (u x ! nat i) (u v ! nat i)) =
      Inr (s + diff_double (u x ! nat i) (u v ! nat i) +
           sum_list (map2 diff_double (drop (nat (i + 1)) (u x)) (drop (nat (i + 1)) (u v))))"
      using True 1 by (intro "1.IH") (simp_all add: get_mut_in_range)
    then show ?thesis
      using step k 1 by (simp add: nat_succ Cons_nth_drop_Suc [symmetric])
  qed
qed

lemma print_loop_spec:
  "0 \<le> i \<Longrightarrow> i \<le> N \<Longrightarrow> length (u x) = nat N \<Longrightarrow>
   print_loop N os x i =
     Inr (os @ concat (map (\<lambda>c. [Dbl c, Str '' '']) (drop (nat i) (u x))))"
proof (induction N os x i rule: print_loop.induct)
  case (1 N os x i)
  show ?case
  proof (cases "i < N")
    case False
    with 1 have "nat i = nat N" by simp
    with 1 False show ?thesis by (subst print_loop.simps) simp
  next
    case True
    have k: "nat i < nat N" using True 1 by simp
    have step: "print_loop N os x i =
        print_loop N (os @ [Dbl (u x ! nat i), Str '' '']) x (i + 1)"
      using True 1 by (subst print_loop.simps) (simp add: get_in_range)
    have "print_loop N (os @ [Dbl (u x ! nat i), Str '' '']) x (i + 1) =
      Inr ((os @ [Dbl (u x ! nat i), Str '' '']) @
           concat (map (\<lambda>c. [Dbl c, Str '' '']) (drop (nat (i + 1)) (u x))))"
      using True 1 by (intro "1.IH") (simp_all add: get_in_range)
    then show ?thesis
      using step k 1 by (simp add: nat_succ Cons_nth_drop_Suc [symmetric])
  qed
qed

lemma init_loop_fits:
  "0 \<le> i \<Longrightarrow> nat i + length coords \<le> length (u this) \<Longrightarrow>
   init_loop coords i this =
     Inr (this\<lparr>u := take (nat i) (u this) @ coords @ drop (nat i + length coords) (u this)\<rparr>)"
proof (induction coords arbitrary: i this)
  case Nil
  then show ?case by simp
next
  case (Cons c coords)
  let ?t = "this\<lparr>u := (u this)[nat i := c]\<rparr>"
  have k: "nat i < length (u this)" using Cons.prems by simp
  then have w: "raw_write this i c = Inr ?t"
    using Cons.prems by (simp add: raw_write_def)
  have "init_loop coords (i + 1) ?t =
     Inr (?t\<lparr>u := take (nat (i + 1)) (u ?t) @ coords @
                 drop (nat (i + 1) + length coords) (u ?t)\<rparr>)"
    using Cons.prems by (intro Cons.IH) simp_all
  then show ?case
    using w k Cons.prems by (simp add: nat_succ take_Suc_update)
qed

lemma init_loop_overflow:
  "0 \<le> i \<Longrightarrow> nat i \<le> length (u this) \<Longrightarrow> length (u this) < nat i + length coords \<Longrightarrow>
   init_loop coords i this = Inl OutOfBounds"
proof (induction coords arbitrary: i this)
  case Nil
  then show ?case by simp
next
  case (Cons c coords)
  show ?case
  proof (cases "nat i < length (u this)")
    case False
    then have "\<not> i < int (length (u this))" using Cons.prems(1) by (simp add: nat_less_iff)
    then show ?thesis by (simp add: raw_write_def)
  next
    case True
    let ?t = "this\<lparr>u := (u this)[nat i := c]\<rparr>"
    have w: "raw_write this i c = Inr ?t"
      using True Cons.prems by (simp add: raw_write_def)
    have "init_loop coords (i + 1) ?t = Inl OutOfBounds"
      using True Cons.prems by (intro Cons.IH) simp_all
    then show ?thesis using w by simp
  qed
qed

lemma is_Vector_lit3: "is_Vector 3 \<lparr>u = [a, b, c]\<rparr>"
  by (simp add: is_Vector_def)

lemma Vector_init_fits:
  "0 \<le> N \<Longrightarrow> length coords \<le> nat N \<Longrightarrow>
   Vector_init N junk coords =
     Inr \<lparr>u = coords @ map junk [length coords..<nat N]\<rparr>"
  unfolding Vector_init_def
  by (subst init_loop_fits) (simp_all add: Vector_default_def drop_map)

lemma Vector_init_overflow:
  "0 \<le> N \<Longrightarrow> nat N < length coords \<Longrightarrow> Vector_init N junk coords = Inl OutOfBounds"
  unfolding Vector_init_def by (rule init_loop_overflow) simp_all

lemma Vector_init3: "Vector_init 3 junk [a, b, c] = Inr \<lparr>u = [a, b, c]\<rparr>"
  by (subst Vector_init_fits) simp_all

lemma norm_spec:
  "is_Vector N x \<Longrightarrow> norm_Vector N x = Inr (sqrt (sum_list (map2 (*) (u x) (u x))))"
  unfolding norm_Vector_def is_Vector_def by (subst norm_loop_spec) simp_all

lemma inner_spec:
  "is_Vector N x \<Longrightarrow> is_Vector N v \<Longrightarrow> inner N x v = Inr (sum_list (map2 (*) (u x) (u v)))"
  unfolding inner_def is_Vector_def by (subst inner_loop_spec) simp_all

lemma diff_Vector_spec:
  "is_Vector N x \<Longrightarrow> is_Vector N v \<Longrightarrow>
   diff_Vector N x v = Inr (sum_list (map2 diff_double (u x) (u v)))"
  unfolding diff_Vector_def is_Vector_def by (subst diff_loop_spec) simp_all

lemma print_Vector_spec:
  "is_Vector N x \<Longrightarrow>
   print_Vector N os x =
     Inr (os @ [Str ''[ ''] @ concat (map (\<lambda>c. [Dbl c, Str '' '']) (u x)) @ [Str '']''])"
  unfolding print_Vector_def is_Vector_def by (subst print_loop_spec) simp_all

lemma cross_spec:
  "is_Vector 3 x \<Longrightarrow> is_Vector 3 v \<Longrightarrow>
   cross junk x v =
     Inr \<lparr>u = [u x ! 1 * u v ! 2 - u x ! 2 * u v ! 1,
               u x ! 2 * u v ! 0 - u x ! 0 * u v ! 2,
               u x ! 0 * u v ! 1 - u x ! 1 * u v ! 0]\<rparr>"
  by (simp add: cross_def Let_def get_in_range put_in_range Vector_default_def
      eval_nat_numeral)

lemma det_spec:
  "det x v w =
     Inr (u x ! 0 * (u v ! 1 * u w ! 2 - u v ! 2 * u w ! 1) +
          u x ! 1 * (u v ! 2 * u w ! 0 - u v ! 0 * u w ! 2) +
          u x ! 2 * (u v ! 0 * u w ! 1 - u v ! 1 * u w ! 0))"
  by (simp add: det_def Let_def get_in_range eval_nat_numeral)

lemma Vector3_cases:
  assumes "is_Vector 3 x"
  obtains a b c where "x = \<lparr>u = [a, b, c]\<rparr>"
proof -
  from assms have "length (u x) = 3" by (simp add: is_Vector_def)
  then obtain a b c where "u x = [a, b, c]"
    by (auto simp: eval_nat_numeral length_Suc_conv)
  then have "x = \<lparr>u = [a, b, c]\<rparr>" by (cases x) simp
  then show ?thesis ..
qed

lemma sqrt_14_bounds: "\<bar>sqrt 14 - 3.74166\<bar> < (0.00001 :: real)"
proof -
  have lo: "(3.74165::real) < sqrt 14"
    by (rule real_less_rsqrt) (simp add: power2_eq_square)
  have hi: "sqrt 14 < (3.74167::real)"
    by (rule real_less_lsqrt) (simp_all add: power2_eq_square)
  from lo hi show ?thesis by arith
qed

lemma sqrt_14_check: "\<bar>sqrt 14 - 187083 / 50000\<bar> * 100000 < (1::real)"
  using sqrt_14_bounds by simp

lemma check_double_spec:
  "check_double os val ref =
     (os @ [Str ''YOUR CODE: '', Dbl val, Endl, Str ''REFERENCE: '', Dbl ref, Endl,
            Str ''  CORRECT? '',
            Str (if \<bar>val - ref\<bar> < 0.00001 then ''YES'' else ''NO''), Endl, Endl],
      if \<bar>val - ref\<bar> < 0.00001 then 1 else 0)"
  by (simp add: check_double_def Let_def diff_double_def tolerance_def)

lemma check_Vector_spec:
  "is_Vector N val \<Longrightarrow> is_Vector N ref \<Longrightarrow>
   check_Vector N os val ref =
     Inr (os @ [Str ''YOUR CODE: '', Str ''[ ''] @
          concat (map (\<lambda>c. [Dbl c, Str '' '']) (u val)) @
          [Str '']'', Endl, Str ''REFERENCE: '', Str ''[ ''] @
          concat (map (\<lambda>c. [Dbl c, Str '' '']) (u ref)) @
          [Str '']'', Endl, Str ''  CORRECT? '',
           Str (if sum_list (map2 diff_double (u val) (u ref)) < 0.00001
                then ''YES'' else ''NO''), Endl, Endl],
          if sum_list (map2 diff_double (u val) (u ref)) < 0.00001 then 1 else 0)"
  by (simp add: check_Vector_def Let_def print_Vector_spec diff_Vector_spec tolerance_def)

section \<open>Rounding\<close>

lemma round_half_even_of_int [simp]: "round_half_even (of_int m) = m"
  by (simp add: round_half_even_def)

lemma ulp_exponent_of_int:
  assumes "0 < k"
  shows "ulp_exponent (of_int k) = bitlen k - 53"
proof -
  have "bitlen k = \<lfloor>log 2 (of_int k)\<rfloor> + 1" using assms by (simp add: bitlen_alt_def)
  moreover have "0 < bitlen k" using assms by (simp add: bitlen_alt_def)
  ultimately show ?thesis using assms by (simp add: ulp_exponent_def)
qed

lemma round_double_pos_small:
  assumes "0 < k" "bitlen k \<le> 53"
  shows "round_double (of_int k) = of_int k"
proof -
  let ?s = "nat (53 - bitlen k)"
  have e: "ulp_exponent (of_int k) = bitlen k - 53" using assms(1) by (rule ulp_exponent_of_int)
  show ?thesis
  proof (cases "bitlen k = 53")
    case True
    then show ?thesis using assms e by (simp add: round_double_def pow2_def)
  next
    case False
    then have neg: "\<not> 0 \<le> bitlen k - 53" using assms by simp
    have s: "nat (- (bitlen k - 53)) = ?s" by simp
    have "real_of_int k / (1 / 2 ^ ?s) = of_int (k * 2 ^ ?s)" by simp
    then have "round_half_even (\<bar>real_of_int k\<bar> / pow2 (bitlen k - 53)) = k * 2 ^ ?s"
      using assms neg by (simp add: pow2_def s del: of_int_mult of_int_power)
    then show ?thesis using assms e neg by (simp add: round_double_def pow2_def s)
  qed
qed

lemma round_double_pos_large:
  assumes "0 < k" "53 < bitlen k"
  shows "round_double (of_int k) = of_int (round53 k)"
proof -
  define t where "t = nat (bitlen k - 53)"
  define q where "q = k div 2 ^ t"
  define r where "r = k mod 2 ^ t"
  define h :: int where "h = 2 ^ (t - 1)"
  have tpos: "0 < t" using assms by (simp add: t_def)
  have e: "ulp_exponent (of_int k) = int t" using assms by (simp add: ulp_exponent_of_int t_def)
  have p: "pow2 (int t) = 2 ^ t" by (simp add: pow2_def)
  have th: "(2::int) ^ t = 2 * h" using tpos by (cases t) (simp_all add: h_def)
  have kqr: "k = q * 2 ^ t + r" unfolding q_def r_def by (rule div_mult_mod_eq [symmetric])
  have y: "real_of_int k / 2 ^ t = of_int q + of_int r / 2 ^ t"
    by (subst kqr) (simp add: field_simps)
  have r0: "0 \<le> r" and r1: "r < 2 ^ t" by (simp_all add: r_def)
  have fl: "\<lfloor>real_of_int k / 2 ^ t\<rfloor> = q"
  proof -
    have "\<lfloor>real_of_int k / real_of_int (2 ^ t)\<rfloor> = k div 2 ^ t"
      by (rule floor_divide_of_int_eq)
    then show ?thesis by (simp add: q_def)
  qed
  have f: "real_of_int k / 2 ^ t - of_int q = of_int r / 2 ^ t" using y by simp
  have two: "(2::real) ^ t = 2 * of_int h"
  proof -
    have "real_of_int (2 ^ t) = real_of_int (2 * h)" using th by simp
    then show ?thesis by simp
  qed
  have lt: "real_of_int r / 2 ^ t < 1 / 2 \<longleftrightarrow> r < h"
  proof -
    have "real_of_int r / 2 ^ t < 1 / 2 \<longleftrightarrow> real_of_int r < real_of_int h"
      unfolding two using tpos by (simp add: field_simps h_def)
    then show ?thesis by simp
  qed
  have gt: "1 / 2 < real_of_int r / 2 ^ t \<longleftrightarrow> h < r"
  proof -
    have "1 / 2 < real_of_int r / 2 ^ t \<longleftrightarrow> real_of_int h < real_of_int r"
      unfolding two using tpos by (simp add: field_simps h_def)
    then show ?thesis by simp
  qed
  have rhe: "round_half_even (real_of_int k / 2 ^ t) =
      (if r < h then q else if h < r then q + 1 else if even q then q else q + 1)"
    by (simp only: round_half_even_def Let_def fl f lt gt)
  have "round53 k = 2 ^ t * (if r < h then q else if h < r then q + 1 else if even q then q else q + 1)"
    using assms by (simp add: round53_def Let_def t_def q_def r_def h_def)
  moreover have "round_double (of_int k) =
     of_int (if r < h then q else if h < r then q + 1 else if even q then q else q + 1) * 2 ^ t"
    using assms by (simp add: round_double_def e p rhe)
  ultimately show ?thesis by simp
qed

lemma round53_small: "bitlen \<bar>k\<bar> \<le> 53 \<Longrightarrow> round53 k = k"
  by (simp add: round53_def)

lemma round_double_pos: "0 < k \<Longrightarrow> round_double (of_int k) = of_int (round53 k)"
  using round_double_pos_small [of k] round_double_pos_large [of k] round53_small [of k]
  by (cases "bitlen k \<le> 53") simp_all

lemma round_double_minus: "round_double (- x) = - round_double x"
  by (simp add: round_double_def ulp_exponent_def)

lemma round53_minus: "round53 (- k) = - round53 k"
  by (simp add: round53_def Let_def)

lemma round_double_of_int: "round_double (of_int k) = of_int (round53 k)"
proof (cases k "0::int" rule: linorder_cases)
  case less
  then have "round_double (of_int (- k)) = of_int (round53 (- k))"
    by (intro round_double_pos) simp
  then show ?thesis by (simp add: round_double_minus round53_minus)
next
  case equal
  then show ?thesis by (simp add: round_double_def round53_def)
next
  case greater
  then show ?thesis by (rule round_double_pos)
qed

lemma round53_exact: "\<bar>k\<bar> < 2 ^ 53 \<Longrightarrow> round53 k = k"
proof -
  assume "\<bar>k\<bar> < 2 ^ 53"
  then have "bitlen \<bar>k\<bar> \<le> 53" by (simp add: bitlen_le_iff_power)
  then show ?thesis by (rule round53_small)
qed

lemma round_double_zero [simp]: "round_double 0 = 0"
  by (simp add: round_double_def)

lemma round_double_numeral: "round_double (numeral w) = of_int (round53 (numeral w))"
  using round_double_of_int [of "numeral w"] by simp

lemma round_double_one: "round_double 1 = 1"
  using round_double_of_int [of 1] round53_exact [of 1] by simp

lemma round_double_int_exact: "\<bar>k\<bar> < 2 ^ 53 \<Longrightarrow> round_double (of_int k) = of_int k"
  by (simp add: round_double_of_int round53_exact)

lemma round53_numeral_exact:
  "(numeral w :: int) < 9007199254740992 \<Longrightarrow> round53 (numeral w) = numeral w"
  by (rule round53_exact) simp

lemma is_double_int: "\<bar>k\<bar> < 2 ^ 53 \<Longrightarrow> is_double (of_int k)"
proof -
  assume b: "\<bar>k\<bar> < 2 ^ 53"
  have "(2::int) ^ 53 < 2 ^ 1024" by simp
  with b have "\<bar>k\<bar> < 2 ^ 1024" by linarith
  then have "\<bar>real_of_int k\<bar> < real_of_int (2 ^ 1024)"
    by (metis of_int_abs of_int_less_iff)
  then show ?thesis using b by (simp add: is_double_def round_double_int_exact)
qed



lemma inner_loop_double_spec:
  "0 \<le> i \<Longrightarrow> i \<le> N \<Longrightarrow> length (u x) = nat N \<Longrightarrow> length (u v) = nat N \<Longrightarrow>
   inner_loop_double N x v i s =
     Inr (foldl (\<lambda>acc (a, b). round_double (acc + round_double (a * b))) s
            (zip (drop (nat i) (u x)) (drop (nat i) (u v))))"
proof (induction N x v i s rule: inner_loop_double.induct)
  case (1 N x v i s)
  show ?case
  proof (cases "i < N")
    case False
    with 1 have "nat i = nat N" by simp
    with 1 False show ?thesis by (subst inner_loop_double.simps) simp
  next
    case True
    let ?s = "round_double (s + round_double (u x ! nat i * u v ! nat i))"
    have k: "nat i < nat N" using True 1 by simp
    have step: "inner_loop_double N x v i s = inner_loop_double N x v (i + 1) ?s"
      using True 1 by (subst inner_loop_double.simps) (simp add: get_in_range)
    have "inner_loop_double N x v (i + 1) ?s =
      Inr (foldl (\<lambda>acc (a, b). round_double (acc + round_double (a * b))) ?s
            (zip (drop (nat (i + 1)) (u x)) (drop (nat (i + 1)) (u v))))"
      using True 1 by (intro "1.IH") (simp_all add: get_in_range)
    then show ?thesis
      using step k 1 by (simp add: nat_succ Cons_nth_drop_Suc [symmetric])
  qed
qed



lemma inner_double_spec:
  "is_Vector N x \<Longrightarrow> is_Vector N v \<Longrightarrow>
   inner_double N x v =
     Inr (foldl (\<lambda>acc (a, b). round_double (acc + round_double (a * b))) 0 (zip (u x) (u v)))"
  unfolding inner_double_def is_Vector_def by (subst inner_loop_double_spec) simp_all

lemma cross_double_spec:
  "cross_double junk \<lparr>u = [x0, x1, x2]\<rparr> \<lparr>u = [v0, v1, v2]\<rparr> =
     Inr \<lparr>u = [round_double (round_double (x1 * v2) - round_double (x2 * v1)),
               round_double (round_double (x2 * v0) - round_double (x0 * v2)),
               round_double (round_double (x0 * v1) - round_double (x1 * v0))]\<rparr>"
  by (simp add: cross_double_def Let_def get_in_range put_in_range Vector_default_def
      eval_nat_numeral)

lemma det_double_spec:
  "det_double \<lparr>u = [x0, x1, x2]\<rparr> \<lparr>u = [v0, v1, v2]\<rparr> \<lparr>u = [w0, w1, w2]\<rparr> =
     Inr (round_double (round_double
       (round_double (x0 * round_double (round_double (v1 * w2) - round_double (v2 * w1))) +
        round_double (x1 * round_double (round_double (v2 * w0) - round_double (v0 * w2)))) +
        round_double (x2 * round_double (round_double (v0 * w1) - round_double (v1 * w0)))))"
  by (simp add: det_double_def Let_def get_in_range eval_nat_numeral)

lemma inner_double3_spec:
  "inner_double 3 \<lparr>u = [x0, x1, x2]\<rparr> \<lparr>u = [v0, v1, v2]\<rparr> =
     Inr (round_double (round_double (round_double (0 + round_double (x0 * v0)) +
            round_double (x1 * v1)) + round_double (x2 * v2)))"
  by (simp add: inner_double_spec is_Vector_lit3)

lemma abs_prod_le:
  fixes a b :: int
  assumes "\<bar>a\<bar> \<le> A" "\<bar>b\<bar> \<le> B"
  shows "\<bar>a * b\<bar> \<le> A * B"
proof -
  have "\<bar>a\<bar> * \<bar>b\<bar> \<le> A * B" using assms by (intro mult_mono) simp_all
  then show ?thesis by (simp add: abs_mult)
qed

lemma cross_term_exact:
  fixes a b c d :: int
  assumes "\<bar>a\<bar> \<le> 65536" "\<bar>b\<bar> \<le> 65536" "\<bar>c\<bar> \<le> 65536" "\<bar>d\<bar> \<le> 65536"
  shows "round_double (round_double (of_int a * of_int b) - round_double (of_int c * of_int d)) =
           of_int (a * b - c * d)"
    and "\<bar>a * b - c * d\<bar> \<le> 8589934592"
proof -
  have ab: "\<bar>a * b\<bar> \<le> 65536 * 65536" using assms by (intro abs_prod_le)
  have cd: "\<bar>c * d\<bar> \<le> 65536 * 65536" using assms by (intro abs_prod_le)
  show bound: "\<bar>a * b - c * d\<bar> \<le> 8589934592" using ab cd by linarith
  have "round_double (of_int a * of_int b) = of_int (a * b)"
    using ab round_double_int_exact [of "a * b"] by simp
  moreover have "round_double (of_int c * of_int d) = of_int (c * d)"
    using cd round_double_int_exact [of "c * d"] by simp
  moreover have "round_double (of_int (a * b - c * d)) = of_int (a * b - c * d)"
    using bound by (intro round_double_int_exact) simp
  ultimately show "round_double (round_double (of_int a * of_int b) -
      round_double (of_int c * of_int d)) = of_int (a * b - c * d)"
    by simp
qed

lemma scaled_term_exact:
  fixes m w :: int
  assumes "\<bar>m\<bar> \<le> 8589934592" "\<bar>w\<bar> \<le> 65536"
  shows "round_double (of_int m * of_int w) = of_int (m * w)"
    and "\<bar>m * w\<bar> \<le> 562949953421312"
proof -
  have "\<bar>m * w\<bar> \<le> 8589934592 * 65536" using assms by (intro abs_prod_le)
  then show bound: "\<bar>m * w\<bar> \<le> 562949953421312" by simp
  then show "round_double (of_int m * of_int w) = of_int (m * w)"
    using round_double_int_exact [of "m * w"] by simp
qed

lemma sum3_exact:
  fixes p q r :: int
  assumes "\<bar>p\<bar> \<le> 562949953421312" "\<bar>q\<bar> \<le> 562949953421312" "\<bar>r\<bar> \<le> 562949953421312"
  shows "round_double (round_double (of_int p + of_int q) + of_int r) = of_int (p + q + r)"
    and "round_double (of_int p) = of_int p"
proof -
  have "round_double (of_int (p + q)) = of_int (p + q)"
    using assms by (intro round_double_int_exact) simp
  moreover have "round_double (of_int (p + q + r)) = of_int (p + q + r)"
    using assms by (intro round_double_int_exact) simp
  ultimately show "round_double (round_double (of_int p + of_int q) + of_int r) =
      of_int (p + q + r)"
    by simp
  show "round_double (of_int p) = of_int p"
    using assms by (intro round_double_int_exact) simp
qed

lemma int_Vector3_cases:
  assumes "is_Vector 3 x" "int_coords x"
  obtains a b c :: int where "x = \<lparr>u = [of_int a, of_int b, of_int c]\<rparr>"
    "\<bar>a\<bar> \<le> 65536" "\<bar>b\<bar> \<le> 65536" "\<bar>c\<bar> \<le> 65536"
proof -
  from assms(1) obtain r0 r1 r2 where x: "x = \<lparr>u = [r0, r1, r2]\<rparr>" by (rule Vector3_cases)
  have small: "\<exists>k::int. r = of_int k \<and> \<bar>k\<bar> \<le> 65536" if "r \<in> \<int>" "\<bar>r\<bar> \<le> 65536" for r :: real
  proof -
    from that(1) obtain k :: int where k: "r = of_int k" by (auto elim: Ints_cases)
    with that(2) have "real_of_int \<bar>k\<bar> \<le> real_of_int 65536" by simp
    then have "\<bar>k\<bar> \<le> 65536" by (simp only: of_int_le_iff)
    with k show ?thesis by blast
  qed
  from assms(2) x obtain a b c :: int where
    "r0 = of_int a" "\<bar>a\<bar> \<le> 65536" "r1 = of_int b" "\<bar>b\<bar> \<le> 65536"
    "r2 = of_int c" "\<bar>c\<bar> \<le> 65536"
    using small [of r0] small [of r1] small [of r2] by (auto simp: int_coords_def)
  with x show ?thesis using that by blast
qed

lemma cross_double_ints:
  fixes a0 a1 a2 b0 b1 b2 :: int
  assumes "\<bar>a0\<bar> \<le> 65536" "\<bar>a1\<bar> \<le> 65536" "\<bar>a2\<bar> \<le> 65536"
    and "\<bar>b0\<bar> \<le> 65536" "\<bar>b1\<bar> \<le> 65536" "\<bar>b2\<bar> \<le> 65536"
  shows "cross_double junk \<lparr>u = [of_int a0, of_int a1, of_int a2]\<rparr>
             \<lparr>u = [of_int b0, of_int b1, of_int b2]\<rparr> =
           Inr \<lparr>u = [of_int (a1 * b2 - a2 * b1), of_int (a2 * b0 - a0 * b2),
                     of_int (a0 * b1 - a1 * b0)]\<rparr>"
  using assms by (simp only: cross_double_spec cross_term_exact)

lemma inner_double_ints:
  fixes m0 m1 m2 w0 w1 w2 :: int
  assumes "\<bar>m0\<bar> \<le> 8589934592" "\<bar>m1\<bar> \<le> 8589934592" "\<bar>m2\<bar> \<le> 8589934592"
    and "\<bar>w0\<bar> \<le> 65536" "\<bar>w1\<bar> \<le> 65536" "\<bar>w2\<bar> \<le> 65536"
  shows "inner_double 3 \<lparr>u = [of_int m0, of_int m1, of_int m2]\<rparr>
             \<lparr>u = [of_int w0, of_int w1, of_int w2]\<rparr> =
           Inr (of_int (m0 * w0 + m1 * w1 + m2 * w2))"
proof -
  note p = scaled_term_exact [OF assms(1) assms(4)] scaled_term_exact [OF assms(2) assms(5)]
    scaled_term_exact [OF assms(3) assms(6)]
  have "round_double (round_double (round_double (0 + round_double (of_int m0 * of_int w0)) +
            round_double (of_int m1 * of_int w1)) + round_double (of_int m2 * of_int w2)) =
        round_double (round_double (of_int (m0 * w0) + of_int (m1 * w1)) + of_int (m2 * w2))"
    using p sum3_exact(2) [of "m0 * w0" 0 0] by simp
  also have "\<dots> = of_int (m0 * w0 + m1 * w1 + m2 * w2)"
    using p by (intro sum3_exact(1)) simp_all
  finally show ?thesis by (simp only: inner_double3_spec)
qed

lemma det_double_ints:
  fixes a0 a1 a2 b0 b1 b2 c0 c1 c2 :: int
  assumes "\<bar>a0\<bar> \<le> 65536" "\<bar>a1\<bar> \<le> 65536" "\<bar>a2\<bar> \<le> 65536"
    and "\<bar>b0\<bar> \<le> 65536" "\<bar>b1\<bar> \<le> 65536" "\<bar>b2\<bar> \<le> 65536"
    and "\<bar>c0\<bar> \<le> 65536" "\<bar>c1\<bar> \<le> 65536" "\<bar>c2\<bar> \<le> 65536"
  shows "det_double \<lparr>u = [of_int a0, of_int a1, of_int a2]\<rparr>
             \<lparr>u = [of_int b0, of_int b1, of_int b2]\<rparr> \<lparr>u = [of_int c0, of_int c1, of_int c2]\<rparr> =
           Inr (of_int (a0 * (b1 * c2 - b2 * c1) + a1 * (b2 * c0 - b0 * c2) +
                        a2 * (b0 * c1 - b1 * c0)))"
proof -
  note d0 = cross_term_exact [OF assms(5) assms(9) assms(6) assms(8)]
  note d1 = cross_term_exact [OF assms(6) assms(7) assms(4) assms(9)]
  note d2 = cross_term_exact [OF assms(4) assms(8) assms(5) assms(7)]
  have t0: "round_double (of_int a0 * of_int (b1 * c2 - b2 * c1)) = of_int (a0 * (b1 * c2 - b2 * c1))"
    and s0: "\<bar>a0 * (b1 * c2 - b2 * c1)\<bar> \<le> 562949953421312"
    using scaled_term_exact [OF d0(2) assms(1)] by (simp_all add: mult.commute)
  have t1: "round_double (of_int a1 * of_int (b2 * c0 - b0 * c2)) = of_int (a1 * (b2 * c0 - b0 * c2))"
    and s1: "\<bar>a1 * (b2 * c0 - b0 * c2)\<bar> \<le> 562949953421312"
    using scaled_term_exact [OF d1(2) assms(2)] by (simp_all add: mult.commute)
  have t2: "round_double (of_int a2 * of_int (b0 * c1 - b1 * c0)) = of_int (a2 * (b0 * c1 - b1 * c0))"
    and s2: "\<bar>a2 * (b0 * c1 - b1 * c0)\<bar> \<le> 562949953421312"
    using scaled_term_exact [OF d2(2) assms(3)] by (simp_all add: mult.commute)
  show ?thesis
    by (simp only: det_double_spec d0(1) d1(1) d2(1) t0 t1 t2 sum3_exact(1) [OF s0 s1 s2])
qed



lemma exact_det_triple_product:
  assumes x: "is_Vector 3 x" and v: "is_Vector 3 v" and w: "is_Vector 3 w"
  shows "\<exists>c d. cross junk x v = Inr c \<and> inner 3 c w = Inr d \<and> det x v w = Inr d"
proof -
  from x obtain x0 x1 x2 where [simp]: "x = \<lparr>u = [x0, x1, x2]\<rparr>" by (rule Vector3_cases)
  from v obtain v0 v1 v2 where [simp]: "v = \<lparr>u = [v0, v1, v2]\<rparr>" by (rule Vector3_cases)
  from w obtain w0 w1 w2 where [simp]: "w = \<lparr>u = [w0, w1, w2]\<rparr>" by (rule Vector3_cases)
  let ?c = "\<lparr>u = [x1 * v2 - x2 * v1, x2 * v0 - x0 * v2, x0 * v1 - x1 * v0]\<rparr>"
  let ?d = "x0 * (v1 * w2 - v2 * w1) + x1 * (v2 * w0 - v0 * w2) + x2 * (v0 * w1 - v1 * w0)"
  have "cross junk x v = Inr ?c"
    by (simp add: cross_spec is_Vector_lit3 eval_nat_numeral)
  moreover have "inner 3 ?c w = Inr ?d"
    by (simp add: inner_spec is_Vector_lit3 algebra_simps)
  moreover have "det x v w = Inr ?d"
    by (simp add: det_spec eval_nat_numeral)
  ultimately show ?thesis by blast
qed

lemma double_det_triple_product:
  assumes x: "is_Vector 3 x" and v: "is_Vector 3 v" and w: "is_Vector 3 w"
    and ix: "int_coords x" and iv: "int_coords v" and iw: "int_coords w"
  shows "\<exists>c d. cross_double junk x v = Inr c \<and> inner_double 3 c w = Inr d \<and>
               det_double x v w = Inr d"
proof -
  from x ix obtain a0 a1 a2 :: int where xa: "x = \<lparr>u = [of_int a0, of_int a1, of_int a2]\<rparr>"
    and a: "\<bar>a0\<bar> \<le> 65536" "\<bar>a1\<bar> \<le> 65536" "\<bar>a2\<bar> \<le> 65536"
    by (rule int_Vector3_cases)
  from v iv obtain b0 b1 b2 :: int where vb: "v = \<lparr>u = [of_int b0, of_int b1, of_int b2]\<rparr>"
    and b: "\<bar>b0\<bar> \<le> 65536" "\<bar>b1\<bar> \<le> 65536" "\<bar>b2\<bar> \<le> 65536"
    by (rule int_Vector3_cases)
  from w iw obtain c0 c1 c2 :: int where wc: "w = \<lparr>u = [of_int c0, of_int c1, of_int c2]\<rparr>"
    and c: "\<bar>c0\<bar> \<le> 65536" "\<bar>c1\<bar> \<le> 65536" "\<bar>c2\<bar> \<le> 65536"
    by (rule int_Vector3_cases)
  let ?m0 = "a1 * b2 - a2 * b1" and ?m1 = "a2 * b0 - a0 * b2" and ?m2 = "a0 * b1 - a1 * b0"
  have m: "\<bar>?m0\<bar> \<le> 8589934592" "\<bar>?m1\<bar> \<le> 8589934592" "\<bar>?m2\<bar> \<le> 8589934592"
    using a b by (simp_all add: cross_term_exact(2))
  have cr: "cross_double junk x v = Inr \<lparr>u = [of_int ?m0, of_int ?m1, of_int ?m2]\<rparr>"
    unfolding xa vb using a b by (rule cross_double_ints)
  have inn: "inner_double 3 \<lparr>u = [of_int ?m0, of_int ?m1, of_int ?m2]\<rparr> w =
      Inr (of_int (?m0 * c0 + ?m1 * c1 + ?m2 * c2))"
    unfolding wc using m c by (rule inner_double_ints)
  have dt: "det_double x v w =
      Inr (of_int (a0 * (b1 * c2 - b2 * c1) + a1 * (b2 * c0 - b0 * c2) +
                   a2 * (b0 * c1 - b1 * c0)))"
    unfolding xa vb wc using a b c by (rule det_double_ints)
  have "?m0 * c0 + ?m1 * c1 + ?m2 * c2 =
      a0 * (b1 * c2 - b2 * c1) + a1 * (b2 * c0 - b0 * c2) + a2 * (b0 * c1 - b1 * c0)"
    by (simp add: algebra_simps)
  with cr inn dt show ?thesis by simp
qed



lemma round53_values:
  "round53 9007199515875288 = 9007199515875288"
  "round53 9007199515875289 = 9007199515875288"
  "round53 27021598547625864 = 27021598547625864"
  "round53 27021598547625867 = 27021598547625868"
  "round53 27021598547625868 = 27021598547625868"
  "round53 99999999999999999 = 100000000000000000"
  "round53 949062669999999985647616 = 949062669999999985647616"
  "round53 949062670000000000000000 = 949062669999999985647616"
  "round53 1208925819614629174706176 = 1208925819614629174706176"
  "round53 100000000000000000000000000000000 = 100000000000000005366162204393472"
  "round53 100000000000000005366162204393472 = 100000000000000005366162204393472"
  "round53 10000000000000000 = 10000000000000000"
  "round53 100000000000000000 = 100000000000000000"
  "round53 9490626699999999856476160000000000000000 = 9490626699999999254124793259683368402944"
  "round53 9490626700000000463050612874312543109120 = 9490626700000000463050612874312543109120"
  "round53 9490626700000000509282422935475426689024 = 9490626700000000463050612874312543109120"
  by code_simp+

lemma is_double_numeral:
  "is_double (numeral w) \<longleftrightarrow>
     round53 (numeral w) = numeral w \<and> (numeral w :: int) < 2 ^ 1024"
proof -
  have "real_of_int (round53 (numeral w)) = real_of_int (numeral w) \<longleftrightarrow>
      round53 (numeral w) = numeral w"
    by (rule of_int_eq_iff)
  moreover have "real_of_int (numeral w) < real_of_int (2 ^ 1024) \<longleftrightarrow>
      (numeral w :: int) < 2 ^ 1024"
    by (rule of_int_less_iff)
  ultimately show ?thesis by (simp add: is_double_def round_double_numeral)
qed

lemma is_double_minus: "is_double (- x) = is_double x"
  by (simp add: is_double_def round_double_minus)

lemma is_double_zero: "is_double 0"
  by (simp add: is_double_def)

lemma is_double_one: "is_double 1"
  using is_double_int [of 1] by simp

lemmas round_double_eval =
  round_double_minus round_double_numeral round_double_one round53_numeral_exact round53_values
  is_double_numeral is_double_minus is_double_zero is_double_one

section \<open>The properties of the specification\<close>

text \<open>
  \<^bold>\<open>C1\<close>. On the inputs of the source's own reference check, \<open>u = (1,2,3)\<close>, \<open>v = (3,1,2)\<close>,
  \<open>w = (5,3,7)\<close> and \<open>a = 4\<close>, built by the initializer-list constructor, the operations
  return \<open>u+v = (4,3,5)\<close>, \<open>u-v = (-2,1,1)\<close>, \<open>u*a = (4,8,12)\<close>, a norm within the
  tolerance \<open>1e-5\<close> of \<open>3.74166\<close>, \<open>inner(u,v) = 11\<close>, \<open>cross(u,v) = (1,7,-5)\<close>,
  \<open>det(u,v,w) = -9\<close> and \<open>a*u = (4,8,12)\<close>, whatever the uninitialised storage held.
\<close>

theorem reference_values:
  "Vector_init 3 junk [1, 2, 3] = Inr \<lparr>u = [1, 2, 3]\<rparr> \<and>
   Vector_init 3 junk [3, 1, 2] = Inr \<lparr>u = [3, 1, 2]\<rparr> \<and>
   Vector_init 3 junk [5, 3, 7] = Inr \<lparr>u = [5, 3, 7]\<rparr> \<and>
   op_plus 3 junk \<lparr>u = [1, 2, 3]\<rparr> \<lparr>u = [3, 1, 2]\<rparr> = Inr \<lparr>u = [4, 3, 5]\<rparr> \<and>
   op_minus 3 junk \<lparr>u = [1, 2, 3]\<rparr> \<lparr>u = [3, 1, 2]\<rparr> = Inr \<lparr>u = [- 2, 1, 1]\<rparr> \<and>
   op_times 3 junk \<lparr>u = [1, 2, 3]\<rparr> 4 = Inr \<lparr>u = [4, 8, 12]\<rparr> \<and>
   (\<exists>m. norm_Vector 3 \<lparr>u = [1, 2, 3]\<rparr> = Inr m \<and> diff_double m 3.74166 < tolerance) \<and>
   inner 3 \<lparr>u = [1, 2, 3]\<rparr> \<lparr>u = [3, 1, 2]\<rparr> = Inr 11 \<and>
   cross junk \<lparr>u = [1, 2, 3]\<rparr> \<lparr>u = [3, 1, 2]\<rparr> = Inr \<lparr>u = [1, 7, - 5]\<rparr> \<and>
   det \<lparr>u = [1, 2, 3]\<rparr> \<lparr>u = [3, 1, 2]\<rparr> \<lparr>u = [5, 3, 7]\<rparr> = Inr (- 9) \<and>
   scalar_times 3 junk 4 \<lparr>u = [1, 2, 3]\<rparr> = Inr \<lparr>u = [4, 8, 12]\<rparr>"
proof -
  have "norm_Vector 3 \<lparr>u = [1, 2, 3]\<rparr> = Inr (sqrt 14)"
    by (simp add: norm_spec is_Vector_lit3)
  moreover have "diff_double (sqrt 14) 3.74166 < tolerance"
    using sqrt_14_bounds by (simp add: diff_double_def tolerance_def)
  ultimately have n: "\<exists>m. norm_Vector 3 \<lparr>u = [1, 2, 3]\<rparr> = Inr m \<and> diff_double m 3.74166 < tolerance"
    by blast
  show ?thesis
    by (intro conjI n)
      (simp_all add: Vector_init3 op_plus_spec op_minus_spec op_times_spec scalar_times_spec
        inner_spec cross_spec det_spec is_Vector_lit3)
qed

text \<open>
  \<^bold>\<open>C2\<close>. For vectors \<open>x\<close> and \<open>v\<close> of the same dimension \<open>N\<close> and an index
  \<open>0 \<le> i < N\<close>, the addition operator returns a vector of dimension \<open>N\<close> whose
  \<open>i\<close>-th coordinate, read with the bracket operator, is the sum of the \<open>i\<close>-th
  coordinates of \<open>x\<close> and \<open>v\<close>.
\<close>

theorem op_plus_coordinate:
  "is_Vector N x \<Longrightarrow> is_Vector N v \<Longrightarrow> 0 \<le> i \<Longrightarrow> i < N \<Longrightarrow>
   \<exists>s a b. op_plus N junk x v = Inr s \<and> is_Vector N s \<and>
     get N x i = Inr a \<and> get N v i = Inr b \<and> get N s i = Inr (a + b)"
  by (simp add: op_plus_spec get_in_range is_Vector_def)

theorem op_plus_coordinate_witness:
  "is_Vector 3 \<lparr>u = [1, 2, 3]\<rparr> \<and> is_Vector 3 \<lparr>u = [3, 1, 2]\<rparr> \<and> (0::int) \<le> 1 \<and> (1::int) < 3 \<and>
   (\<exists>s. op_plus 3 (\<lambda>k. 0) \<lparr>u = [1, 2, 3]\<rparr> \<lparr>u = [3, 1, 2]\<rparr> = Inr s \<and>
     get 3 \<lparr>u = [1, 2, 3]\<rparr> 1 = Inr 2 \<and> get 3 \<lparr>u = [3, 1, 2]\<rparr> 1 = Inr 1 \<and>
     get 3 s 1 = Inr 3)"
  using op_plus_coordinate [of 3 "\<lparr>u = [1, 2, 3]\<rparr>" "\<lparr>u = [3, 1, 2]\<rparr>" 1 "\<lambda>k. 0"]
  by (auto simp: is_Vector_def get_in_range)




text \<open>
  \<^bold>\<open>C4\<close>. For every scalar \<open>a\<close> and every vector \<open>x\<close> of dimension \<open>N\<close>, the free function
  \<^verbatim>\<open>a*x\<close> and the member operator \<^verbatim>\<open>x*a\<close> return the same vector.
\<close>

theorem scalar_times_commutes:
  "is_Vector N x \<Longrightarrow>
   \<exists>p. scalar_times N junk a x = Inr p \<and> op_times N junk' x a = Inr p \<and> is_Vector N p"
  by (simp add: scalar_times_spec op_times_spec is_Vector_def)

theorem scalar_times_commutes_witness:
  "is_Vector 3 \<lparr>u = [1, 2, 3]\<rparr> \<and>
   scalar_times 3 (\<lambda>k. 0) 4 \<lparr>u = [1, 2, 3]\<rparr> = Inr \<lparr>u = [4, 8, 12]\<rparr> \<and>
   op_times 3 (\<lambda>k. 1) \<lparr>u = [1, 2, 3]\<rparr> 4 = Inr \<lparr>u = [4, 8, 12]\<rparr>"
  using scalar_times_commutes [of 3 "\<lparr>u = [1, 2, 3]\<rparr>" "\<lambda>k. 0" 4 "\<lambda>k. 1"]
  by (auto simp: is_Vector_def op_times_spec)

text \<open>
  \<^bold>\<open>C5\<close>. For every vector \<open>x\<close> of dimension \<open>N\<close>, \<open>inner(x,x)\<close> is the sum of the
  products of the coordinates of \<open>x\<close> with themselves, and \<open>norm(x)\<close> is its square root.
\<close>

theorem norm_sqrt_inner:
  "is_Vector N x \<Longrightarrow>
   \<exists>s. inner N x x = Inr s \<and> s = sum_list (map2 (*) (u x) (u x)) \<and> norm_Vector N x = Inr (sqrt s)"
  by (simp add: inner_spec norm_spec)

theorem norm_sqrt_inner_witness:
  "is_Vector 2 \<lparr>u = [3, 4]\<rparr> \<and> inner 2 \<lparr>u = [3, 4]\<rparr> \<lparr>u = [3, 4]\<rparr> = Inr 25 \<and>
   norm_Vector 2 \<lparr>u = [3, 4]\<rparr> = Inr (sqrt 25)"
  using norm_sqrt_inner [of 2 "\<lparr>u = [3, 4]\<rparr>"]
  by (auto simp: is_Vector_def)

text \<open>
  \<^bold>\<open>C6\<close>. For 3-vectors \<open>x\<close>, \<open>v\<close>, \<open>w\<close>, the determinant \<open>det(x,v,w)\<close> is the scalar
  triple product \<open>inner(cross(x,v), w)\<close>: in exact arithmetic always, and in double
  arithmetic when the coordinates are integers of magnitude at most \<open>65536\<close>, where no
  operation rounds.
\<close>

theorem det_triple_product:
  "is_Vector 3 x \<Longrightarrow> is_Vector 3 v \<Longrightarrow> is_Vector 3 w \<Longrightarrow>
   (\<exists>c d. cross junk x v = Inr c \<and> inner 3 c w = Inr d \<and> det x v w = Inr d) \<and>
   (int_coords x \<and> int_coords v \<and> int_coords w \<longrightarrow>
      (\<exists>c d. cross_double junk x v = Inr c \<and> inner_double 3 c w = Inr d \<and>
             det_double x v w = Inr d))"
  using exact_det_triple_product [of x v w junk] double_det_triple_product [of x v w junk]
  by blast

theorem det_triple_product_witness:
  "is_Vector 3 \<lparr>u = [1, 2, 3]\<rparr> \<and> is_Vector 3 \<lparr>u = [3, 1, 2]\<rparr> \<and> is_Vector 3 \<lparr>u = [5, 3, 7]\<rparr> \<and>
   int_coords \<lparr>u = [1, 2, 3]\<rparr> \<and> int_coords \<lparr>u = [3, 1, 2]\<rparr> \<and> int_coords \<lparr>u = [5, 3, 7]\<rparr> \<and>
   (\<exists>c. cross (\<lambda>k. 0) \<lparr>u = [1, 2, 3]\<rparr> \<lparr>u = [3, 1, 2]\<rparr> = Inr c \<and>
        inner 3 c \<lparr>u = [5, 3, 7]\<rparr> = Inr (- 9)) \<and>
   det \<lparr>u = [1, 2, 3]\<rparr> \<lparr>u = [3, 1, 2]\<rparr> \<lparr>u = [5, 3, 7]\<rparr> = Inr (- 9) \<and>
   (\<exists>c. cross_double (\<lambda>k. 0) \<lparr>u = [1, 2, 3]\<rparr> \<lparr>u = [3, 1, 2]\<rparr> = Inr c \<and>
        inner_double 3 c \<lparr>u = [5, 3, 7]\<rparr> = Inr (- 9)) \<and>
   det_double \<lparr>u = [1, 2, 3]\<rparr> \<lparr>u = [3, 1, 2]\<rparr> \<lparr>u = [5, 3, 7]\<rparr> = Inr (- 9)"
  using det_triple_product [of "\<lparr>u = [1, 2, 3]\<rparr>" "\<lparr>u = [3, 1, 2]\<rparr>" "\<lparr>u = [5, 3, 7]\<rparr>" "\<lambda>k. 0"]
  by (auto simp: is_Vector_lit3 int_coords_def det_spec det_double_spec round_double_eval)

text \<open>
  In double arithmetic the two differ in general: for \<open>x = (0, 0, 94906267)\<close>,
  \<open>v = (0, 94906267, 0)\<close> and \<open>w = (3, 0, 0)\<close> the determinant is
  \<open>-27021598547625868\<close> and the triple product is \<open>-27021598547625864\<close>.
\<close>

theorem det_triple_product_counterexample:
  "list_all is_double [0, 3, 94906267] \<and>
   cross_double real \<lparr>u = [0, 0, 94906267]\<rparr> \<lparr>u = [0, 94906267, 0]\<rparr> =
     Inr \<lparr>u = [- 9007199515875288, 0, 0]\<rparr> \<and>
   inner_double 3 \<lparr>u = [- 9007199515875288, 0, 0]\<rparr> \<lparr>u = [3, 0, 0]\<rparr> =
     Inr (- 27021598547625864) \<and>
   det_double \<lparr>u = [0, 0, 94906267]\<rparr> \<lparr>u = [0, 94906267, 0]\<rparr> \<lparr>u = [3, 0, 0]\<rparr> =
     Inr (- 27021598547625868) \<and>
   inner_double 3 \<lparr>u = [- 9007199515875288, 0, 0]\<rparr> \<lparr>u = [3, 0, 0]\<rparr> \<noteq>
     det_double \<lparr>u = [0, 0, 94906267]\<rparr> \<lparr>u = [0, 94906267, 0]\<rparr> \<lparr>u = [3, 0, 0]\<rparr>"
  by (simp add: cross_double_spec inner_double3_spec det_double_spec round_double_eval)




text \<open>
  \<^bold>\<open>C8\<close>. For a vector of dimension \<open>N\<close> and any index \<open>i\<close>, the mutable and the const bracket
  operator fail their assertion exactly when \<open>i < 0\<close> or \<open>i \<ge> N\<close>. When
  \<open>0 \<le> i < N\<close> both return, without failure, a reference inside the array, to the
  \<open>i\<close>-th stored coordinate.
\<close>

theorem bracket_assertion:
  "is_Vector N v \<Longrightarrow>
   (bracket N v i = Inl AssertionFailure \<longleftrightarrow> i < 0 \<or> N \<le> i) \<and>
   (bracket_const N v i = Inl AssertionFailure \<longleftrightarrow> i < 0 \<or> N \<le> i) \<and>
   (0 \<le> i \<and> i < N \<longrightarrow>
      (\<exists>r. bracket N v i = Inr r \<and> bracket_const N v i = Inr r \<and>
           r < length (u v) \<and> deref v r = u v ! nat i))"
  by (auto simp: bracket_def bracket_const_def deref_def is_Vector_def)

theorem bracket_assertion_witness:
  "is_Vector 3 \<lparr>u = [7, 5, 3]\<rparr> \<and> (0::int) \<le> 1 \<and> (1::int) < 3 \<and>
   bracket 3 \<lparr>u = [7, 5, 3]\<rparr> 1 = Inr 1 \<and>
   bracket_const 3 \<lparr>u = [7, 5, 3]\<rparr> 1 = Inr 1 \<and>
   deref \<lparr>u = [7, 5, 3]\<rparr> 1 = 5 \<and>
   bracket 3 \<lparr>u = [7, 5, 3]\<rparr> 3 = Inl AssertionFailure \<and>
   bracket_const 3 \<lparr>u = [7, 5, 3]\<rparr> (- 1) = Inl AssertionFailure"
  using bracket_assertion [of 3 "\<lparr>u = [7, 5, 3]\<rparr>" 1]
    bracket_assertion [of 3 "\<lparr>u = [7, 5, 3]\<rparr>" 3]
    bracket_assertion [of 3 "\<lparr>u = [7, 5, 3]\<rparr>" "- 1"]
  by (auto simp: is_Vector_def bracket_def bracket_const_def deref_def)

text \<open>
  \<^bold>\<open>C9\<close>. The quiz program has no input. It prints the constants, then for each of the eight
  checks the computed value and the reference value, then the line
  \<^verbatim>\<open>PASSED 8 OF 8 TESTS\<close>, and it returns the exit code 0. No assertion fails on the way.
  The exit code is the literal 0 that \<^verbatim>\<open>main\<close> returns after \<^verbatim>\<open>test\<close>, which returns
  nothing: the pass count cannot reach it.
\<close>

theorem main_output_and_exit_code:
  "main junk =
     Inr ([Str ''u: '', Str ''[ '', Dbl 1, Str '' '', Dbl 2, Str '' '', Dbl 3, Str '' '', Str '']'', Endl,
           Str ''v: '', Str ''[ '', Dbl 3, Str '' '', Dbl 1, Str '' '', Dbl 2, Str '' '', Str '']'', Endl,
           Str ''w: '', Str ''[ '', Dbl 5, Str '' '', Dbl 3, Str '' '', Dbl 7, Str '' '', Str '']'', Endl,
           Str ''a: '', Dbl 4, Endl,
           Endl,
           Str ''u+v (addition)'', Endl,
           Str ''YOUR CODE: '', Str ''[ '', Dbl 4, Str '' '', Dbl 3, Str '' '', Dbl 5, Str '' '', Str '']'', Endl,
           Str ''REFERENCE: '', Str ''[ '', Dbl 4, Str '' '', Dbl 3, Str '' '', Dbl 5, Str '' '', Str '']'', Endl,
           Str ''  CORRECT? '', Str ''YES'', Endl, Endl,
           Str ''u-v (subtraction)'', Endl,
           Str ''YOUR CODE: '', Str ''[ '', Dbl (- 2), Str '' '', Dbl 1, Str '' '', Dbl 1, Str '' '', Str '']'', Endl,
           Str ''REFERENCE: '', Str ''[ '', Dbl (- 2), Str '' '', Dbl 1, Str '' '', Dbl 1, Str '' '', Str '']'', Endl,
           Str ''  CORRECT? '', Str ''YES'', Endl, Endl,
           Str ''u*a (right scalar multiplication)'', Endl,
           Str ''YOUR CODE: '', Str ''[ '', Dbl 4, Str '' '', Dbl 8, Str '' '', Dbl 12, Str '' '', Str '']'', Endl,
           Str ''REFERENCE: '', Str ''[ '', Dbl 4, Str '' '', Dbl 8, Str '' '', Dbl 12, Str '' '', Str '']'', Endl,
           Str ''  CORRECT? '', Str ''YES'', Endl, Endl,
           Str ''norm(u) (Euclidean norm)'', Endl,
           Str ''YOUR CODE: '', Dbl (sqrt 14), Endl,
           Str ''REFERENCE: '', Dbl 3.74166, Endl,
           Str ''  CORRECT? '', Str ''YES'', Endl, Endl,
           Str ''inner(u,v) (inner product)'', Endl,
           Str ''YOUR CODE: '', Dbl 11, Endl,
           Str ''REFERENCE: '', Dbl 11, Endl,
           Str ''  CORRECT? '', Str ''YES'', Endl, Endl,
           Str ''cross(u,v) (cross product)'', Endl,
           Str ''YOUR CODE: '', Str ''[ '', Dbl 1, Str '' '', Dbl 7, Str '' '', Dbl (- 5), Str '' '', Str '']'', Endl,
           Str ''REFERENCE: '', Str ''[ '', Dbl 1, Str '' '', Dbl 7, Str '' '', Dbl (- 5), Str '' '', Str '']'', Endl,
           Str ''  CORRECT? '', Str ''YES'', Endl, Endl,
           Str ''det(u,v,w) (determinant)'', Endl,
           Str ''YOUR CODE: '', Dbl (- 9), Endl,
           Str ''REFERENCE: '', Dbl (- 9), Endl,
           Str ''  CORRECT? '', Str ''YES'', Endl, Endl,
           Str ''a*u (left scalar multiplication)'', Endl,
           Str ''YOUR CODE: '', Str ''[ '', Dbl 4, Str '' '', Dbl 8, Str '' '', Dbl 12, Str '' '', Str '']'', Endl,
           Str ''REFERENCE: '', Str ''[ '', Dbl 4, Str '' '', Dbl 8, Str '' '', Dbl 12, Str '' '', Str '']'', Endl,
           Str ''  CORRECT? '', Str ''YES'', Endl, Endl,
           Str ''PASSED '', IntT 8, Str '' OF 8 TESTS'', Endl],
          0)"
  by (simp add: main_def test_def Let_def Vector_init3 print_Vector_spec is_Vector_lit3
      op_plus_spec op_minus_spec op_times_spec scalar_times_spec norm_spec inner_spec
      cross_spec det_spec check_double_spec check_Vector_spec diff_double_def sqrt_14_check)

text \<open>
  \<^bold>\<open>C10\<close>. For an initializer list of \<open>k\<close> coordinates: when \<open>k \<le> N\<close> the constructor returns
  a vector of dimension \<open>N\<close> whose coordinate \<open>i\<close> is the \<open>i\<close>-th element of the list
  for \<open>i < k\<close>, and whose other coordinates are what the storage held before
  (unspecified). When \<open>k > N\<close> nothing checks the length: the constructor writes outside
  the array, and that is no assertion failure.
\<close>

theorem Vector_init_coordinates:
  "0 \<le> N \<Longrightarrow>
   (length coords \<le> nat N \<longrightarrow>
      (\<exists>v. Vector_init N junk coords = Inr v \<and> is_Vector N v \<and>
           (\<forall>i < length coords. u v ! i = coords ! i) \<and>
           (\<forall>i. length coords \<le> i \<and> i < nat N \<longrightarrow> u v ! i = junk i))) \<and>
   (nat N < length coords \<longrightarrow>
      Vector_init N junk coords = Inl OutOfBounds \<and>
      Vector_init N junk coords \<noteq> Inl AssertionFailure)"
  by (auto simp: Vector_init_fits Vector_init_overflow is_Vector_def nth_append)

theorem Vector_init_coordinates_witness:
  "(0::int) \<le> 3 \<and> length [1, 2 :: real] \<le> nat 3 \<and>
   Vector_init 3 (\<lambda>k. 9) [1, 2] = Inr \<lparr>u = [1, 2, 9]\<rparr> \<and>
   (0::int) \<le> 2 \<and> nat 2 < length [1, 2, 3 :: real] \<and>
   Vector_init 2 (\<lambda>k. 9) [1, 2, 3] = Inl OutOfBounds"
  using Vector_init_coordinates [of 3 "[1, 2]" "\<lambda>k. 9"]
    Vector_init_coordinates [of 2 "[1, 2, 3]" "\<lambda>k. 9"]
  by (auto simp: Vector_init_fits upt_conv_Cons)

end
